theory Spec2Isabelle
  imports Main "HOL-Library.Word"
begin

section \<open>File-descriptor limits of the Cloud SQL proxy (proxy/limits/limits.go)\<close>

text \<open>
  \<^verbatim>\<open>SetupFDLimits(wantFDs uint64) error\<close> reads the process's RLIMIT_NOFILE pair and
  raises it to \<open>wantFDs\<close> where it is lower. It reaches the kernel only through the two
  package variables \<^verbatim>\<open>syscallGetrlimit\<close> and \<^verbatim>\<open>syscallSetrlimit\<close> ("for overriding in
  unittests"), so the embedding takes both as parameters: any pair of functions over any
  kernel state \<open>'k\<close>, returning any error type \<open>'e\<close>.
\<close>

subsection \<open>Data\<close>

text \<open>
  \<^verbatim>\<open>syscall.Rlimit\<close> is \<^verbatim>\<open>struct { Cur uint64; Max uint64 }\<close>: the source compares both
  fields with the \<^verbatim>\<open>uint64\<close> parameter. The hard limit's field is \<open>Max\<close> in the source;
  it carries a suffix here because \<open>Max\<close> is the maximum of a set in HOL. Comparison on
  \<open>64 word\<close> is the unsigned one, as Go's on \<^verbatim>\<open>uint64\<close>.
\<close>

type_synonym uint64 = "64 word"

record Rlimit =
  Cur :: uint64
  Max_lim :: uint64

text \<open>
  The two values \<^verbatim>\<open>SetupFDLimits\<close> can return besides \<^verbatim>\<open>nil\<close>, one per \<^verbatim>\<open>fmt.Errorf\<close>
  of the source, each with the arguments its format string prints:
  "failed to read rlimit for max file descriptors: %v" (line 40) and
  "failed to set rlimit {%v} for max file descriptors: %v" (line 70).
\<close>

datatype 'e error =
  FailedToReadRlimit 'e
| FailedToSetRlimit Rlimit 'e

text \<open>
  The three places where the source calls the kernel: line 39 (the query), line 62 (both
  limits set to \<open>wantFDs\<close>) and line 69 (only the soft limit set).
\<close>

datatype site = Query | PrivilegedRaise | SoftRaise

datatype syscall = is_Getrlimit: Getrlimit | is_Setrlimit: Setrlimit Rlimit

text \<open>
  The two messages given to \<^verbatim>\<open>logging.Infof\<close>: line 44, and lines 63 and 73.
\<close>

datatype logline =
  NothingToDo uint64 uint64
| RlimitsSet Rlimit

text \<open>
  What one run acts on: the kernel behind the two function variables, the calls made
  through them (oldest first, each with its call site) and the lines logged.
\<close>

record 'k world =
  kern :: 'k
  calls :: "(site \<times> syscall) list"
  infos :: "logline list"

definition start :: "'k \<Rightarrow> 'k world" where
  "start k = \<lparr>kern = k, calls = [], infos = []\<rparr>"

subsection \<open>The calls\<close>

text \<open>
  \<^verbatim>\<open>syscallGetrlimit(syscall.RLIMIT_NOFILE, rlim)\<close> returns an error or fills \<open>rlim\<close>; the
  source returns at once on an error and never reads \<open>rlim\<close> then, so the result is a sum.
  \<^verbatim>\<open>syscallSetrlimit(syscall.RLIMIT_NOFILE, rlim)\<close> returns an error or \<^verbatim>\<open>nil\<close> (\<open>None\<close>)
  and reads the pair it is given. The resource is RLIMIT_NOFILE at all three sites and is
  left out of the parameters' types.
\<close>

type_synonym ('k, 'e) getrlimit = "'k \<Rightarrow> ('e + Rlimit) \<times> 'k"
type_synonym ('k, 'e) setrlimit = "Rlimit \<Rightarrow> 'k \<Rightarrow> 'e option \<times> 'k"

definition do_getrlimit :: "('k, 'e) getrlimit \<Rightarrow> 'k world \<Rightarrow> ('e + Rlimit) \<times> 'k world" where
  "do_getrlimit syscallGetrlimit w =
     (case syscallGetrlimit (kern w) of
        (res, k') \<Rightarrow> (res, w\<lparr>kern := k', calls := calls w @ [(Query, Getrlimit)]\<rparr>))"

definition do_setrlimit ::
  "('k, 'e) setrlimit \<Rightarrow> site \<Rightarrow> Rlimit \<Rightarrow> 'k world \<Rightarrow> 'e option \<times> 'k world" where
  "do_setrlimit syscallSetrlimit s rlim w =
     (case syscallSetrlimit rlim (kern w) of
        (res, k') \<Rightarrow> (res, w\<lparr>kern := k', calls := calls w @ [(s, Setrlimit rlim)]\<rparr>))"

definition Infof :: "logline \<Rightarrow> 'k world \<Rightarrow> 'k world" where
  "Infof l w = w\<lparr>infos := infos w @ [l]\<rparr>"

subsection \<open>SetupFDLimits\<close>

text \<open>
  Lines 68 to 74, reached when the hard limit is high enough and when the call of line 62
  has failed: \<^verbatim>\<open>rlim.Cur = wantFDs\<close> on the pair that was read, then the set call.
\<close>

definition set_soft_limit ::
  "('k, 'e) setrlimit \<Rightarrow> Rlimit \<Rightarrow> uint64 \<Rightarrow> 'k world \<Rightarrow> 'e error option \<times> 'k world" where
  "set_soft_limit syscallSetrlimit rlim wantFDs w =
     (let rlim' = rlim\<lparr>Cur := wantFDs\<rparr> in
      case do_setrlimit syscallSetrlimit SoftRaise rlim' w of
        (Some err, w') \<Rightarrow> (Some (FailedToSetRlimit rlim' err), w')
      | (None, w') \<Rightarrow> (None, Infof (RlimitsSet rlim') w'))"

text \<open>Lines 37 to 75. \<open>None\<close> is Go's \<^verbatim>\<open>nil\<close> error.\<close>

definition SetupFDLimits ::
  "('k, 'e) getrlimit \<Rightarrow> ('k, 'e) setrlimit \<Rightarrow> uint64 \<Rightarrow> 'k world \<Rightarrow> 'e error option \<times> 'k world" where
  "SetupFDLimits syscallGetrlimit syscallSetrlimit wantFDs w =
     (case do_getrlimit syscallGetrlimit w of
        (Inl err, w1) \<Rightarrow> (Some (FailedToReadRlimit err), w1)
      | (Inr rlim, w1) \<Rightarrow>
          if wantFDs \<le> Cur rlim then (None, Infof (NothingToDo (Cur rlim) wantFDs) w1)
          else if Max_lim rlim < wantFDs then
            (let rlim2 = \<lparr>Cur = wantFDs, Max_lim = wantFDs\<rparr> in
             case do_setrlimit syscallSetrlimit PrivilegedRaise rlim2 w1 of
               (None, w2) \<Rightarrow> (None, Infof (RlimitsSet rlim2) w2)
             | (Some err, w2) \<Rightarrow> set_soft_limit syscallSetrlimit rlim wantFDs w2)
          else set_soft_limit syscallSetrlimit rlim wantFDs w1)"

subsection \<open>Kernels\<close>

text \<open>
  What the limits are after a run is a matter of the kernel behind the two calls. A kernel
  whose state has the limit pair \<open>lim k\<close> is lawful when a query reports that pair and
  leaves it alone, a set call that succeeds installs the pair it was given, and a call that
  fails changes no limit.
\<close>

definition lawful_kernel ::
  "('k, 'e) getrlimit \<Rightarrow> ('k, 'e) setrlimit \<Rightarrow> ('k \<Rightarrow> Rlimit) \<Rightarrow> bool" where
  "lawful_kernel syscallGetrlimit syscallSetrlimit lim \<longleftrightarrow>
     (\<forall>k r k'. syscallGetrlimit k = (Inr r, k') \<longrightarrow> r = lim k \<and> lim k' = lim k) \<and>
     (\<forall>k e k'. syscallGetrlimit k = (Inl e, k') \<longrightarrow> lim k' = lim k) \<and>
     (\<forall>r k k'. syscallSetrlimit r k = (None, k') \<longrightarrow> lim k' = r) \<and>
     (\<forall>r k e k'. syscallSetrlimit r k = (Some e, k') \<longrightarrow> lim k' = lim k)"

text \<open>
  A reference kernel after the setrlimit(2) paragraph quoted at lines 48 to 55 of the
  source: an unprivileged process may set its soft limit up to the hard limit and lower
  its hard limit; a privileged one may change either limit. A pair whose soft limit
  exceeds its hard limit is refused (EINVAL); raising the hard limit without privilege is
  refused (EPERM). The query always answers.
\<close>

datatype errno = EPERM | EINVAL | EFAULT

record refkernel =
  nofile :: Rlimit
  privileged :: bool

definition kernelGetrlimit :: "(refkernel, errno) getrlimit" where
  "kernelGetrlimit k = (Inr (nofile k), k)"

definition kernelSetrlimit :: "(refkernel, errno) setrlimit" where
  "kernelSetrlimit r k =
     (if Max_lim r < Cur r then (Some EINVAL, k)
      else if \<not> privileged k \<and> Max_lim (nofile k) < Max_lim r then (Some EPERM, k)
      else (None, k\<lparr>nofile := r\<rparr>))"

text \<open>A query that fails with a given error and touches nothing, as a test double would.\<close>

definition failingGetrlimit :: "'e \<Rightarrow> ('k, 'e) getrlimit" where
  "failingGetrlimit e k = (Inl e, k)"

definition unprivileged :: "uint64 \<Rightarrow> uint64 \<Rightarrow> refkernel" where
  "unprivileged c m = \<lparr>nofile = \<lparr>Cur = c, Max_lim = m\<rparr>, privileged = False\<rparr>"

definition root :: "uint64 \<Rightarrow> uint64 \<Rightarrow> refkernel" where
  "root c m = \<lparr>nofile = \<lparr>Cur = c, Max_lim = m\<rparr>, privileged = True\<rparr>"

section \<open>Properties\<close>

lemma lawful_getD:
  "lawful_kernel g s lim \<Longrightarrow> g k = (Inr r, k') \<Longrightarrow> r = lim k \<and> lim k' = lim k"
  unfolding lawful_kernel_def by blast

lemma lawful_set_okD:
  "lawful_kernel g s lim \<Longrightarrow> s r k = (None, k') \<Longrightarrow> lim k' = r"
  unfolding lawful_kernel_def by blast

lemma lawful_set_errD:
  "lawful_kernel g s lim \<Longrightarrow> s r k = (Some e, k') \<Longrightarrow> lim k' = lim k"
  unfolding lawful_kernel_def by blast

lemma lawful_reference: "lawful_kernel kernelGetrlimit kernelSetrlimit nofile"
  unfolding lawful_kernel_def kernelGetrlimit_def kernelSetrlimit_def
  by (auto split: if_splits)

lemmas run_defs =
  SetupFDLimits_def set_soft_limit_def do_getrlimit_def do_setrlimit_def Infof_def start_def

lemmas ref_defs = kernelGetrlimit_def kernelSetrlimit_def unprivileged_def root_def

lemma set_soft_limit_run:
  "set_soft_limit s rlim wantFDs w =
     (case s (rlim\<lparr>Cur := wantFDs\<rparr>) (kern w) of
        (Some err, k') \<Rightarrow>
          (Some (FailedToSetRlimit (rlim\<lparr>Cur := wantFDs\<rparr>) err),
           w\<lparr>kern := k', calls := calls w @ [(SoftRaise, Setrlimit (rlim\<lparr>Cur := wantFDs\<rparr>))]\<rparr>)
      | (None, k') \<Rightarrow>
          (None,
           w\<lparr>kern := k', calls := calls w @ [(SoftRaise, Setrlimit (rlim\<lparr>Cur := wantFDs\<rparr>))],
             infos := infos w @ [RlimitsSet (rlim\<lparr>Cur := wantFDs\<rparr>)]\<rparr>))"
  by (simp add: set_soft_limit_def do_setrlimit_def Infof_def Let_def
      split: prod.splits option.splits)

text \<open>
  The limits a run that returns \<^verbatim>\<open>nil\<close> leaves on a lawful kernel: those before, already
  high enough; or both at \<open>wantFDs\<close>; or the soft one raised to \<open>wantFDs\<close>.
\<close>

lemma success_limits:
  assumes law: "lawful_kernel g s lim"
    and run: "SetupFDLimits g s wantFDs (start k) = (None, w1)"
  shows "(wantFDs \<le> Cur (lim k) \<and> lim (kern w1) = lim k) \<or>
         (Cur (lim k) < wantFDs \<and> Max_lim (lim k) < wantFDs \<and>
            lim (kern w1) = \<lparr>Cur = wantFDs, Max_lim = wantFDs\<rparr>) \<or>
         (Cur (lim k) < wantFDs \<and> lim (kern w1) = (lim k)\<lparr>Cur := wantFDs\<rparr>)"
proof (cases "g k")
  case (Pair res k1)
  show ?thesis
  proof (cases res)
    case (Inl err)
    with Pair run show ?thesis
      by (simp add: SetupFDLimits_def do_getrlimit_def start_def)
  next
    case (Inr rlim)
    with Pair have q: "g k = (Inr rlim, k1)" by simp
    from lawful_getD [OF law q] have rl: "rlim = lim k" and k1: "lim k1 = lim k" by simp_all
    show ?thesis
    proof (cases "wantFDs \<le> Cur rlim")
      case True
      with q run have "kern w1 = k1"
        by (auto simp: SetupFDLimits_def do_getrlimit_def start_def Infof_def)
      with True rl k1 show ?thesis by simp
    next
      case False
      then have lt: "Cur (lim k) < wantFDs" using rl by simp
      show ?thesis
      proof (cases "Max_lim rlim < wantFDs")
        case hard: True
        obtain r2 k2 where p: "s \<lparr>Cur = wantFDs, Max_lim = wantFDs\<rparr> k1 = (r2, k2)"
          by (cases "s \<lparr>Cur = wantFDs, Max_lim = wantFDs\<rparr> k1") 
        show ?thesis
        proof (cases r2)
          case None
          with p q False hard run have "kern w1 = k2"
            by (auto simp: SetupFDLimits_def do_getrlimit_def do_setrlimit_def start_def
                Infof_def Let_def)
          moreover from lawful_set_okD [OF law] p None
          have "lim k2 = \<lparr>Cur = wantFDs, Max_lim = wantFDs\<rparr>" by simp
          ultimately show ?thesis using lt hard rl by simp
        next
          case (Some e1)
          from lawful_set_errD [OF law] p Some have k2: "lim k2 = lim k1" by simp
          obtain r3 k3 where p3: "s (rlim\<lparr>Cur := wantFDs\<rparr>) k2 = (r3, k3)"
            by (cases "s (rlim\<lparr>Cur := wantFDs\<rparr>) k2")
          with p Some q False hard run have "r3 = None" and "kern w1 = k3"
            by (auto simp: SetupFDLimits_def do_getrlimit_def do_setrlimit_def start_def
                set_soft_limit_run Let_def split: option.splits)
          moreover with lawful_set_okD [OF law] p3 have "lim k3 = rlim\<lparr>Cur := wantFDs\<rparr>"
            by simp
          ultimately show ?thesis using lt rl by simp
        qed
      next
        case soft: False
        obtain r3 k3 where p3: "s (rlim\<lparr>Cur := wantFDs\<rparr>) k1 = (r3, k3)"
          by (cases "s (rlim\<lparr>Cur := wantFDs\<rparr>) k1")
        with q False soft run have "r3 = None" and "kern w1 = k3"
          by (auto simp: SetupFDLimits_def do_getrlimit_def start_def
              set_soft_limit_run Let_def split: option.splits)
        moreover with lawful_set_okD [OF law] p3 have "lim k3 = rlim\<lparr>Cur := wantFDs\<rparr>"
          by simp
        ultimately show ?thesis using lt rl by simp
      qed
    qed
  qed
qed

text \<open>The calls of a run, read off the answers of the kernel.\<close>

lemma trace_shape_of_answer:
  assumes "g k = (res, k1)"
  shows "calls (snd (SetupFDLimits g s wantFDs (start k))) =
     (case res of
        Inl err \<Rightarrow> [(Query, Getrlimit)]
      | Inr rlim \<Rightarrow>
          if wantFDs \<le> Cur rlim then [(Query, Getrlimit)]
          else if Max_lim rlim < wantFDs then
            (case fst (s \<lparr>Cur = wantFDs, Max_lim = wantFDs\<rparr> k1) of
               None \<Rightarrow>
                 [(Query, Getrlimit),
                  (PrivilegedRaise, Setrlimit \<lparr>Cur = wantFDs, Max_lim = wantFDs\<rparr>)]
             | Some err \<Rightarrow>
                 [(Query, Getrlimit),
                  (PrivilegedRaise, Setrlimit \<lparr>Cur = wantFDs, Max_lim = wantFDs\<rparr>),
                  (SoftRaise, Setrlimit (rlim\<lparr>Cur := wantFDs\<rparr>))])
          else [(Query, Getrlimit), (SoftRaise, Setrlimit (rlim\<lparr>Cur := wantFDs\<rparr>))])"
  using assms
  by (simp add: SetupFDLimits_def do_getrlimit_def do_setrlimit_def start_def Infof_def
      set_soft_limit_run Let_def split: sum.splits prod.splits option.splits)

lemma trace_shape:
  "calls (snd (SetupFDLimits g s wantFDs (start k))) =
     (case fst (g k) of
        Inl err \<Rightarrow> [(Query, Getrlimit)]
      | Inr rlim \<Rightarrow>
          if wantFDs \<le> Cur rlim then [(Query, Getrlimit)]
          else if Max_lim rlim < wantFDs then
            (case fst (s \<lparr>Cur = wantFDs, Max_lim = wantFDs\<rparr> (snd (g k))) of
               None \<Rightarrow>
                 [(Query, Getrlimit),
                  (PrivilegedRaise, Setrlimit \<lparr>Cur = wantFDs, Max_lim = wantFDs\<rparr>)]
             | Some err \<Rightarrow>
                 [(Query, Getrlimit),
                  (PrivilegedRaise, Setrlimit \<lparr>Cur = wantFDs, Max_lim = wantFDs\<rparr>),
                  (SoftRaise, Setrlimit (rlim\<lparr>Cur := wantFDs\<rparr>))])
          else [(Query, Getrlimit), (SoftRaise, Setrlimit (rlim\<lparr>Cur := wantFDs\<rparr>))])"
proof -
  have "g k = (fst (g k), snd (g k))" by simp
  then show ?thesis by (rule trace_shape_of_answer)
qed

lemma run_nothing_to_do:
  assumes "g k = (Inr rlim, k1)" and "wantFDs \<le> Cur rlim"
  shows "SetupFDLimits g s wantFDs (start k) =
           (None, \<lparr>kern = k1, calls = [(Query, Getrlimit)],
                   infos = [NothingToDo (Cur rlim) wantFDs]\<rparr>)"
  using assms by (simp add: SetupFDLimits_def do_getrlimit_def start_def Infof_def)

subsection \<open>The query fails\<close>

text \<open>
  Claim C5. Whatever \<open>wantFDs\<close> is, when the query fails the run returns the read error
  carrying the query's own error, and the query is the only call it makes: no set call.
\<close>

theorem SetupFDLimits_query_failed:
  assumes "syscallGetrlimit k = (Inl err, k1)"
  shows "SetupFDLimits syscallGetrlimit syscallSetrlimit wantFDs (start k) =
           (Some (FailedToReadRlimit err),
            \<lparr>kern = k1, calls = [(Query, Getrlimit)], infos = []\<rparr>)"
  using assms by (simp add: SetupFDLimits_def do_getrlimit_def start_def)

theorem SetupFDLimits_query_failed_witness:
  "SetupFDLimits (failingGetrlimit EFAULT) kernelSetrlimit 500 (start (unprivileged 256 1024)) =
     (Some (FailedToReadRlimit EFAULT),
      \<lparr>kern = unprivileged 256 1024, calls = [(Query, Getrlimit)], infos = []\<rparr>)"
proof -
  have q: "failingGetrlimit EFAULT (unprivileged 256 1024) = (Inl EFAULT, unprivileged 256 1024)"
    by (simp add: failingGetrlimit_def)
  show ?thesis
    by (rule SetupFDLimits_query_failed
          [where syscallGetrlimit = "failingGetrlimit EFAULT" and k = "unprivileged 256 1024", OF q])
qed

subsection \<open>The requirement already holds\<close>

text \<open>
  Claim C2. When the query answers with a soft limit of at least \<open>wantFDs\<close>, the run
  returns \<^verbatim>\<open>nil\<close>, its only call is the query (no set call is made), and on a lawful kernel
  the limits afterwards are the limits before.
\<close>

theorem SetupFDLimits_nothing_to_do:
  assumes "syscallGetrlimit k = (Inr rlim, k1)" and "wantFDs \<le> Cur rlim"
  shows "SetupFDLimits syscallGetrlimit syscallSetrlimit wantFDs (start k) =
           (None, \<lparr>kern = k1, calls = [(Query, Getrlimit)],
                   infos = [NothingToDo (Cur rlim) wantFDs]\<rparr>)
         \<and> (lawful_kernel syscallGetrlimit syscallSetrlimit lim \<longrightarrow> lim k1 = lim k)"
proof -
  have "lim k1 = lim k" if law: "lawful_kernel syscallGetrlimit syscallSetrlimit lim"
    using lawful_getD [OF law assms(1)] by simp
  moreover have "SetupFDLimits syscallGetrlimit syscallSetrlimit wantFDs (start k) =
           (None, \<lparr>kern = k1, calls = [(Query, Getrlimit)],
                   infos = [NothingToDo (Cur rlim) wantFDs]\<rparr>)"
    by (rule run_nothing_to_do) (rule assms)+
  ultimately show ?thesis by blast
qed

theorem SetupFDLimits_nothing_to_do_witness:
  "SetupFDLimits kernelGetrlimit kernelSetrlimit 500 (start (unprivileged 1024 1024)) =
     (None, \<lparr>kern = unprivileged 1024 1024, calls = [(Query, Getrlimit)],
             infos = [NothingToDo 1024 500]\<rparr>)
   \<and> nofile (unprivileged 1024 1024) = \<lparr>Cur = 1024, Max_lim = 1024\<rparr>"
proof -
  have q: "kernelGetrlimit (unprivileged 1024 1024) =
             (Inr \<lparr>Cur = 1024, Max_lim = 1024\<rparr>, unprivileged 1024 1024)"
    by (simp add: ref_defs)
  have le: "(500 :: uint64) \<le> Cur \<lparr>Cur = 1024, Max_lim = 1024\<rparr>"
    by simp
  from SetupFDLimits_nothing_to_do
         [where syscallGetrlimit = kernelGetrlimit and k = "unprivileged 1024 1024"
            and syscallSetrlimit = kernelSetrlimit and lim = nofile, OF q le]
  show ?thesis
    by (simp add: unprivileged_def)
qed

text \<open>
  Claim C10. With \<open>wantFDs = 0\<close> every answer of the query passes the guard of line 43,
  the soft limit being unsigned: the run returns \<^verbatim>\<open>nil\<close> and makes no set call.
\<close>

theorem SetupFDLimits_zero:
  assumes "syscallGetrlimit k = (Inr rlim, k1)"
  shows "SetupFDLimits syscallGetrlimit syscallSetrlimit 0 (start k) =
           (None, \<lparr>kern = k1, calls = [(Query, Getrlimit)],
                   infos = [NothingToDo (Cur rlim) 0]\<rparr>)"
  using assms by (simp add: SetupFDLimits_def do_getrlimit_def start_def Infof_def)

theorem SetupFDLimits_zero_witness:
  "SetupFDLimits kernelGetrlimit kernelSetrlimit 0 (start (unprivileged 0 0)) =
     (None, \<lparr>kern = unprivileged 0 0, calls = [(Query, Getrlimit)],
             infos = [NothingToDo 0 0]\<rparr>)"
proof -
  have q: "kernelGetrlimit (unprivileged 0 0) =
             (Inr \<lparr>Cur = 0, Max_lim = 0\<rparr>, unprivileged 0 0)"
    by (simp add: ref_defs)
  from SetupFDLimits_zero
         [where syscallGetrlimit = kernelGetrlimit and k = "unprivileged 0 0"
            and syscallSetrlimit = kernelSetrlimit, OF q]
  show ?thesis
    by simp
qed

subsection \<open>Raising the soft limit alone\<close>

text \<open>
  Claim C1. When the query answers with a soft limit below \<open>wantFDs\<close> and a hard limit of
  at least \<open>wantFDs\<close>, the calls of the run are the query and the set call of line 69,
  whatever that call answers: the call of line 62 is not made. When the kernel accepts the
  pair, the run returns \<^verbatim>\<open>nil\<close>, and on a lawful kernel the soft limit is then \<open>wantFDs\<close>
  and the hard limit is the one before.
\<close>

theorem SetupFDLimits_soft_raise:
  assumes "syscallGetrlimit k = (Inr rlim, k1)"
    and "Cur rlim < wantFDs" and "wantFDs \<le> Max_lim rlim"
  shows "calls (snd (SetupFDLimits syscallGetrlimit syscallSetrlimit wantFDs (start k))) =
           [(Query, Getrlimit), (SoftRaise, Setrlimit \<lparr>Cur = wantFDs, Max_lim = Max_lim rlim\<rparr>)]
         \<and> (\<forall>k2. syscallSetrlimit \<lparr>Cur = wantFDs, Max_lim = Max_lim rlim\<rparr> k1 = (None, k2) \<longrightarrow>
               SetupFDLimits syscallGetrlimit syscallSetrlimit wantFDs (start k) =
                 (None,
                  \<lparr>kern = k2,
                   calls = [(Query, Getrlimit),
                            (SoftRaise, Setrlimit \<lparr>Cur = wantFDs, Max_lim = Max_lim rlim\<rparr>)],
                   infos = [RlimitsSet \<lparr>Cur = wantFDs, Max_lim = Max_lim rlim\<rparr>]\<rparr>)
               \<and> (lawful_kernel syscallGetrlimit syscallSetrlimit lim \<longrightarrow>
                    Cur (lim k2) = wantFDs \<and> Max_lim (lim k2) = Max_lim (lim k)))"
proof -
  have upd: "rlim\<lparr>Cur := wantFDs\<rparr> = \<lparr>Cur = wantFDs, Max_lim = Max_lim rlim\<rparr>"
    by (cases rlim) simp
  from assms have guards: "\<not> wantFDs \<le> Cur rlim" "\<not> Max_lim rlim < wantFDs"
    by (simp_all add: not_le not_less)
  with assms(1) have run:
    "SetupFDLimits syscallGetrlimit syscallSetrlimit wantFDs (start k) =
       set_soft_limit syscallSetrlimit rlim wantFDs
         \<lparr>kern = k1, calls = [(Query, Getrlimit)], infos = []\<rparr>"
    by (simp add: SetupFDLimits_def do_getrlimit_def start_def)
  have trace: "calls (snd (SetupFDLimits syscallGetrlimit syscallSetrlimit wantFDs (start k))) =
      [(Query, Getrlimit), (SoftRaise, Setrlimit \<lparr>Cur = wantFDs, Max_lim = Max_lim rlim\<rparr>)]"
    by (simp add: run set_soft_limit_run upd split: prod.splits option.splits)
  have accepted: "SetupFDLimits syscallGetrlimit syscallSetrlimit wantFDs (start k) =
      (None,
       \<lparr>kern = k2,
        calls = [(Query, Getrlimit),
                 (SoftRaise, Setrlimit \<lparr>Cur = wantFDs, Max_lim = Max_lim rlim\<rparr>)],
        infos = [RlimitsSet \<lparr>Cur = wantFDs, Max_lim = Max_lim rlim\<rparr>]\<rparr>)"
    if "syscallSetrlimit \<lparr>Cur = wantFDs, Max_lim = Max_lim rlim\<rparr> k1 = (None, k2)" for k2
    using that by (simp add: run set_soft_limit_run upd)
  have limits: "Cur (lim k2) = wantFDs \<and> Max_lim (lim k2) = Max_lim (lim k)"
    if "syscallSetrlimit \<lparr>Cur = wantFDs, Max_lim = Max_lim rlim\<rparr> k1 = (None, k2)"
      and law: "lawful_kernel syscallGetrlimit syscallSetrlimit lim" for k2
    using lawful_set_okD [OF law that(1)] lawful_getD [OF law assms(1)] by simp
  from trace accepted limits show ?thesis by blast
qed

theorem SetupFDLimits_soft_raise_witness:
  "SetupFDLimits kernelGetrlimit kernelSetrlimit 500 (start (unprivileged 256 1024)) =
     (None,
      \<lparr>kern = unprivileged 500 1024,
       calls = [(Query, Getrlimit), (SoftRaise, Setrlimit \<lparr>Cur = 500, Max_lim = 1024\<rparr>)],
       infos = [RlimitsSet \<lparr>Cur = 500, Max_lim = 1024\<rparr>]\<rparr>)
   \<and> nofile (unprivileged 500 1024) = \<lparr>Cur = 500, Max_lim = 1024\<rparr>"
proof -
  have q: "kernelGetrlimit (unprivileged 256 1024) =
             (Inr \<lparr>Cur = 256, Max_lim = 1024\<rparr>, unprivileged 256 1024)"
    by (simp add: ref_defs)
  have lo: "Cur \<lparr>Cur = 256, Max_lim = 1024\<rparr> < (500 :: uint64)"
    and hi: "(500 :: uint64) \<le> Max_lim \<lparr>Cur = 256, Max_lim = 1024\<rparr>"
    by simp_all
  have acc: "kernelSetrlimit \<lparr>Cur = 500, Max_lim = Max_lim \<lparr>Cur = 256, Max_lim = 1024\<rparr>\<rparr>
               (unprivileged 256 1024) = (None, unprivileged 500 1024)"
    by (simp add: ref_defs)
  from SetupFDLimits_soft_raise
         [where syscallGetrlimit = kernelGetrlimit and k = "unprivileged 256 1024"
            and syscallSetrlimit = kernelSetrlimit and lim = nofile, OF q lo hi]
       acc lawful_reference
  show ?thesis
    by (simp add: unprivileged_def)
qed

subsection \<open>The hard limit is too low\<close>

text \<open>
  Claim C4. The pair the query answers with is a limit pair (its soft limit is at most its
  hard limit) and its hard limit is below \<open>wantFDs\<close>. When the kernel accepts the pair
  with both limits at \<open>wantFDs\<close> (line 62), the run returns \<^verbatim>\<open>nil\<close> at once: that call is
  its only set call, and on a lawful kernel both limits are then \<open>wantFDs\<close>.
\<close>

theorem SetupFDLimits_privileged_raise:
  assumes "syscallGetrlimit k = (Inr rlim, k1)"
    and "Cur rlim \<le> Max_lim rlim" and "Max_lim rlim < wantFDs"
    and "syscallSetrlimit \<lparr>Cur = wantFDs, Max_lim = wantFDs\<rparr> k1 = (None, k2)"
  shows "SetupFDLimits syscallGetrlimit syscallSetrlimit wantFDs (start k) =
           (None,
            \<lparr>kern = k2,
             calls = [(Query, Getrlimit),
                      (PrivilegedRaise, Setrlimit \<lparr>Cur = wantFDs, Max_lim = wantFDs\<rparr>)],
             infos = [RlimitsSet \<lparr>Cur = wantFDs, Max_lim = wantFDs\<rparr>]\<rparr>)
         \<and> (lawful_kernel syscallGetrlimit syscallSetrlimit lim \<longrightarrow>
              lim k2 = \<lparr>Cur = wantFDs, Max_lim = wantFDs\<rparr>)"
proof -
  from assms(2,3) have "\<not> wantFDs \<le> Cur rlim"
    by (simp add: not_le)
  with assms(1,3,4) have "SetupFDLimits syscallGetrlimit syscallSetrlimit wantFDs (start k) =
           (None,
            \<lparr>kern = k2,
             calls = [(Query, Getrlimit),
                      (PrivilegedRaise, Setrlimit \<lparr>Cur = wantFDs, Max_lim = wantFDs\<rparr>)],
             infos = [RlimitsSet \<lparr>Cur = wantFDs, Max_lim = wantFDs\<rparr>]\<rparr>)"
    by (simp add: SetupFDLimits_def do_getrlimit_def do_setrlimit_def start_def Infof_def
        Let_def)
  moreover have "lim k2 = \<lparr>Cur = wantFDs, Max_lim = wantFDs\<rparr>"
    if law: "lawful_kernel syscallGetrlimit syscallSetrlimit lim"
    using lawful_set_okD [OF law assms(4)] by simp
  ultimately show ?thesis by blast
qed

theorem SetupFDLimits_privileged_raise_witness:
  "SetupFDLimits kernelGetrlimit kernelSetrlimit 2048 (start (root 256 1024)) =
     (None,
      \<lparr>kern = root 2048 2048,
       calls = [(Query, Getrlimit),
                (PrivilegedRaise, Setrlimit \<lparr>Cur = 2048, Max_lim = 2048\<rparr>)],
       infos = [RlimitsSet \<lparr>Cur = 2048, Max_lim = 2048\<rparr>]\<rparr>)
   \<and> nofile (root 2048 2048) = \<lparr>Cur = 2048, Max_lim = 2048\<rparr>"
proof -
  have q: "kernelGetrlimit (root 256 1024) = (Inr \<lparr>Cur = 256, Max_lim = 1024\<rparr>, root 256 1024)"
    by (simp add: ref_defs)
  have pair: "Cur \<lparr>Cur = 256, Max_lim = 1024\<rparr> \<le> Max_lim \<lparr>Cur = 256, Max_lim = 1024\<rparr>"
    and low: "Max_lim \<lparr>Cur = 256, Max_lim = 1024\<rparr> < (2048 :: uint64)"
    by simp_all
  have acc: "kernelSetrlimit \<lparr>Cur = 2048, Max_lim = 2048\<rparr> (root 256 1024) =
               (None, root 2048 2048)"
    by (simp add: ref_defs)
  from SetupFDLimits_privileged_raise
         [where syscallGetrlimit = kernelGetrlimit and k = "root 256 1024"
            and syscallSetrlimit = kernelSetrlimit and lim = nofile, OF q pair low acc]
       lawful_reference
  show ?thesis
    by simp
qed

text \<open>
  Claim C3. The pair the query answers with is a limit pair and its hard limit is below
  \<open>wantFDs\<close>. When the kernel refuses the pair of line 62 and then refuses the pair of
  line 69 (soft limit \<open>wantFDs\<close>, hard limit as queried), the run returns the set error
  with that last pair and the error of the last call, after exactly these three calls; on
  a lawful kernel the limits are then still the queried ones.
\<close>

theorem SetupFDLimits_raise_failed:
  assumes "syscallGetrlimit k = (Inr rlim, k1)"
    and "Cur rlim \<le> Max_lim rlim" and "Max_lim rlim < wantFDs"
    and "syscallSetrlimit \<lparr>Cur = wantFDs, Max_lim = wantFDs\<rparr> k1 = (Some err1, k2)"
    and "syscallSetrlimit \<lparr>Cur = wantFDs, Max_lim = Max_lim rlim\<rparr> k2 = (Some err2, k3)"
  shows "SetupFDLimits syscallGetrlimit syscallSetrlimit wantFDs (start k) =
           (Some (FailedToSetRlimit \<lparr>Cur = wantFDs, Max_lim = Max_lim rlim\<rparr> err2),
            \<lparr>kern = k3,
             calls = [(Query, Getrlimit),
                      (PrivilegedRaise, Setrlimit \<lparr>Cur = wantFDs, Max_lim = wantFDs\<rparr>),
                      (SoftRaise, Setrlimit \<lparr>Cur = wantFDs, Max_lim = Max_lim rlim\<rparr>)],
             infos = []\<rparr>)
         \<and> (lawful_kernel syscallGetrlimit syscallSetrlimit lim \<longrightarrow>
              lim k3 = lim k \<and> lim k3 = rlim)"
proof -
  have upd: "rlim\<lparr>Cur := wantFDs\<rparr> = \<lparr>Cur = wantFDs, Max_lim = Max_lim rlim\<rparr>"
    by (cases rlim) simp
  from assms(2,3) have "\<not> wantFDs \<le> Cur rlim"
    by (simp add: not_le)
  with assms(1,3,4,5) have run:
    "SetupFDLimits syscallGetrlimit syscallSetrlimit wantFDs (start k) =
           (Some (FailedToSetRlimit \<lparr>Cur = wantFDs, Max_lim = Max_lim rlim\<rparr> err2),
            \<lparr>kern = k3,
             calls = [(Query, Getrlimit),
                      (PrivilegedRaise, Setrlimit \<lparr>Cur = wantFDs, Max_lim = wantFDs\<rparr>),
                      (SoftRaise, Setrlimit \<lparr>Cur = wantFDs, Max_lim = Max_lim rlim\<rparr>)],
             infos = []\<rparr>)"
    by (simp add: SetupFDLimits_def do_getrlimit_def do_setrlimit_def start_def
        set_soft_limit_run upd Let_def)
  have "lim k3 = lim k \<and> lim k3 = rlim"
    if law: "lawful_kernel syscallGetrlimit syscallSetrlimit lim"
    using lawful_getD [OF law assms(1)] lawful_set_errD [OF law assms(4)]
      lawful_set_errD [OF law assms(5)]
    by simp
  with run show ?thesis by blast
qed

theorem SetupFDLimits_raise_failed_witness:
  "SetupFDLimits kernelGetrlimit kernelSetrlimit 2048 (start (unprivileged 256 1024)) =
     (Some (FailedToSetRlimit \<lparr>Cur = 2048, Max_lim = 1024\<rparr> EINVAL),
      \<lparr>kern = unprivileged 256 1024,
       calls = [(Query, Getrlimit),
                (PrivilegedRaise, Setrlimit \<lparr>Cur = 2048, Max_lim = 2048\<rparr>),
                (SoftRaise, Setrlimit \<lparr>Cur = 2048, Max_lim = 1024\<rparr>)],
       infos = []\<rparr>)
   \<and> nofile (unprivileged 256 1024) = \<lparr>Cur = 256, Max_lim = 1024\<rparr>"
proof -
  have q: "kernelGetrlimit (unprivileged 256 1024) =
             (Inr \<lparr>Cur = 256, Max_lim = 1024\<rparr>, unprivileged 256 1024)"
    by (simp add: ref_defs)
  have pair: "Cur \<lparr>Cur = 256, Max_lim = 1024\<rparr> \<le> Max_lim \<lparr>Cur = 256, Max_lim = 1024\<rparr>"
    and low: "Max_lim \<lparr>Cur = 256, Max_lim = 1024\<rparr> < (2048 :: uint64)"
    by simp_all
  have no1: "kernelSetrlimit \<lparr>Cur = 2048, Max_lim = 2048\<rparr> (unprivileged 256 1024) =
               (Some EPERM, unprivileged 256 1024)"
    by (simp add: ref_defs)
  have no2: "kernelSetrlimit \<lparr>Cur = 2048, Max_lim = Max_lim \<lparr>Cur = 256, Max_lim = 1024\<rparr>\<rparr>
               (unprivileged 256 1024) = (Some EINVAL, unprivileged 256 1024)"
    by (simp add: ref_defs)
  from SetupFDLimits_raise_failed
         [where syscallGetrlimit = kernelGetrlimit and k = "unprivileged 256 1024"
            and syscallSetrlimit = kernelSetrlimit and lim = nofile, OF q pair low no1 no2]
       lawful_reference
  show ?thesis
    by (simp add: unprivileged_def)
qed

subsection \<open>Every run\<close>

text \<open>
  Claim C6. Whenever a run makes the set call of line 69, after a refused call of line 62
  or without one, the pair it passes has \<open>wantFDs\<close> as its soft limit and the hard limit
  the query answered with.
\<close>

theorem soft_raise_keeps_queried_maximum:
  assumes "syscallGetrlimit k = (Inr rlim, k1)"
    and "(SoftRaise, Setrlimit r) \<in>
           set (calls (snd (SetupFDLimits syscallGetrlimit syscallSetrlimit wantFDs (start k))))"
  shows "Cur r = wantFDs \<and> Max_lim r = Max_lim rlim"
  using assms(2) unfolding trace_shape
  by (auto simp: assms(1) split: if_splits option.splits)

theorem soft_raise_keeps_queried_maximum_witness:
  "(SoftRaise, Setrlimit \<lparr>Cur = 2048, Max_lim = 1024\<rparr>) \<in>
     set (calls (snd (SetupFDLimits kernelGetrlimit kernelSetrlimit 2048
                        (start (unprivileged 256 1024)))))
   \<and> (PrivilegedRaise, Setrlimit \<lparr>Cur = 2048, Max_lim = 2048\<rparr>) \<in>
     set (calls (snd (SetupFDLimits kernelGetrlimit kernelSetrlimit 2048
                        (start (unprivileged 256 1024)))))
   \<and> Cur \<lparr>Cur = 2048, Max_lim = 1024\<rparr> = (2048 :: uint64)
   \<and> Max_lim \<lparr>Cur = 2048, Max_lim = 1024\<rparr> = Max_lim \<lparr>Cur = 256, Max_lim = 1024\<rparr>"
proof -
  have q: "kernelGetrlimit (unprivileged 256 1024) =
             (Inr \<lparr>Cur = 256, Max_lim = 1024\<rparr>, unprivileged 256 1024)"
    by (simp add: ref_defs)
  have tr: "calls (snd (SetupFDLimits kernelGetrlimit kernelSetrlimit 2048
                          (start (unprivileged 256 1024)))) =
              [(Query, Getrlimit),
               (PrivilegedRaise, Setrlimit \<lparr>Cur = 2048, Max_lim = 2048\<rparr>),
               (SoftRaise, Setrlimit \<lparr>Cur = 2048, Max_lim = 1024\<rparr>)]"
    by (simp add: run_defs ref_defs Let_def)
  have made: "(SoftRaise, Setrlimit \<lparr>Cur = 2048, Max_lim = 1024\<rparr>) \<in>
     set (calls (snd (SetupFDLimits kernelGetrlimit kernelSetrlimit 2048
                        (start (unprivileged 256 1024)))))"
    by (simp add: tr)
  from soft_raise_keeps_queried_maximum
         [where syscallGetrlimit = kernelGetrlimit and k = "unprivileged 256 1024"
            and syscallSetrlimit = kernelSetrlimit, OF q made]
       made
  show ?thesis
    by (simp add: tr)
qed

text \<open>
  Claim C8. In every run the query is called exactly once and the set call at most
  twice, and no call site is passed more than once: nothing is retried. A run whose query
  answers with a soft limit below \<open>wantFDs\<close> makes one or two set calls.
\<close>

theorem SetupFDLimits_calls_bounded:
  "let cs = calls (snd (SetupFDLimits syscallGetrlimit syscallSetrlimit wantFDs (start k)))
   in length (filter (is_Getrlimit \<circ> snd) cs) = 1
      \<and> length (filter (is_Setrlimit \<circ> snd) cs) \<le> 2
      \<and> distinct (map fst cs)
      \<and> (\<forall>rlim k1. syscallGetrlimit k = (Inr rlim, k1) \<and> Cur rlim < wantFDs \<longrightarrow>
            1 \<le> length (filter (is_Setrlimit \<circ> snd) cs))"
proof -
  obtain res k1 where q: "syscallGetrlimit k = (res, k1)"
    by (cases "syscallGetrlimit k")
  show ?thesis
    unfolding Let_def trace_shape using q
    by (auto simp: not_le split: sum.splits option.splits)
qed

theorem SetupFDLimits_calls_bounded_witness:
  "length (filter (is_Getrlimit \<circ> snd)
     (calls (snd (SetupFDLimits kernelGetrlimit kernelSetrlimit 2048
                    (start (unprivileged 256 1024)))))) = 1
   \<and> length (filter (is_Setrlimit \<circ> snd)
     (calls (snd (SetupFDLimits kernelGetrlimit kernelSetrlimit 2048
                    (start (unprivileged 256 1024)))))) = 2
   \<and> distinct (map fst
     (calls (snd (SetupFDLimits kernelGetrlimit kernelSetrlimit 2048
                    (start (unprivileged 256 1024))))))"
proof -
  have q: "kernelGetrlimit (unprivileged 256 1024) =
             (Inr \<lparr>Cur = 256, Max_lim = 1024\<rparr>, unprivileged 256 1024)"
    by (simp add: ref_defs)
  have two: "2 \<le> length (filter (is_Setrlimit \<circ> snd)
     (calls (snd (SetupFDLimits kernelGetrlimit kernelSetrlimit 2048
                    (start (unprivileged 256 1024))))))"
    by (simp add: run_defs ref_defs Let_def)
  from SetupFDLimits_calls_bounded
         [of kernelGetrlimit kernelSetrlimit 2048 "unprivileged 256 1024"] two
  show ?thesis
    by (simp add: Let_def)
qed

text \<open>
  Claim C9. Every pair a run passes to the set call has \<open>wantFDs\<close> as its soft limit,
  above the queried soft limit, and a hard limit of at least the queried one: no run asks
  for a lower limit. On a lawful kernel, after a run that returns \<^verbatim>\<open>nil\<close> neither limit is
  below what it was before.
\<close>

theorem SetupFDLimits_never_lowers:
  "(\<forall>rlim k1 st r.
      syscallGetrlimit k = (Inr rlim, k1) \<and>
      (st, Setrlimit r) \<in>
        set (calls (snd (SetupFDLimits syscallGetrlimit syscallSetrlimit wantFDs (start k)))) \<longrightarrow>
      Cur r = wantFDs \<and> Cur rlim < Cur r \<and> Max_lim rlim \<le> Max_lim r)
   \<and> (\<forall>w1. lawful_kernel syscallGetrlimit syscallSetrlimit lim \<and>
        SetupFDLimits syscallGetrlimit syscallSetrlimit wantFDs (start k) = (None, w1) \<longrightarrow>
        Cur (lim k) \<le> Cur (lim (kern w1)) \<and> Max_lim (lim k) \<le> Max_lim (lim (kern w1)))"
proof -
  have pairs: "Cur r = wantFDs \<and> Cur rlim < Cur r \<and> Max_lim rlim \<le> Max_lim r"
    if q: "syscallGetrlimit k = (Inr rlim, k1)"
      and made: "(st, Setrlimit r) \<in>
        set (calls (snd (SetupFDLimits syscallGetrlimit syscallSetrlimit wantFDs (start k))))"
    for rlim k1 st r
    using made unfolding trace_shape
    by (auto simp: q not_le split: if_splits option.splits)
  have limits: "Cur (lim k) \<le> Cur (lim (kern w1)) \<and> Max_lim (lim k) \<le> Max_lim (lim (kern w1))"
    if law: "lawful_kernel syscallGetrlimit syscallSetrlimit lim"
      and run: "SetupFDLimits syscallGetrlimit syscallSetrlimit wantFDs (start k) = (None, w1)"
    for w1
    using success_limits [OF law run] by auto
  from pairs limits show ?thesis by blast
qed

theorem SetupFDLimits_never_lowers_witness:
  "(PrivilegedRaise, Setrlimit \<lparr>Cur = 2048, Max_lim = 2048\<rparr>) \<in>
     set (calls (snd (SetupFDLimits kernelGetrlimit kernelSetrlimit 2048 (start (root 256 1024)))))
   \<and> Cur \<lparr>Cur = 256, Max_lim = 1024\<rparr> < Cur \<lparr>Cur = 2048, Max_lim = 2048 :: uint64\<rparr>
   \<and> Max_lim \<lparr>Cur = 256, Max_lim = 1024\<rparr> \<le> Max_lim \<lparr>Cur = 2048, Max_lim = 2048 :: uint64\<rparr>
   \<and> fst (SetupFDLimits kernelGetrlimit kernelSetrlimit 2048 (start (root 256 1024))) = None
   \<and> Cur (nofile (root 256 1024))
       \<le> Cur (nofile (kern (snd (SetupFDLimits kernelGetrlimit kernelSetrlimit 2048
                                   (start (root 256 1024))))))
   \<and> Max_lim (nofile (root 256 1024))
       \<le> Max_lim (nofile (kern (snd (SetupFDLimits kernelGetrlimit kernelSetrlimit 2048
                                       (start (root 256 1024))))))"
proof -
  have q: "kernelGetrlimit (root 256 1024) = (Inr \<lparr>Cur = 256, Max_lim = 1024\<rparr>, root 256 1024)"
    by (simp add: ref_defs)
  have made: "(PrivilegedRaise, Setrlimit \<lparr>Cur = 2048, Max_lim = 2048\<rparr>) \<in>
     set (calls (snd (SetupFDLimits kernelGetrlimit kernelSetrlimit 2048 (start (root 256 1024)))))"
    by (simp add: run_defs ref_defs Let_def)
  have ok: "SetupFDLimits kernelGetrlimit kernelSetrlimit 2048 (start (root 256 1024)) =
              (None, snd (SetupFDLimits kernelGetrlimit kernelSetrlimit 2048 (start (root 256 1024))))"
    by (simp add: run_defs ref_defs Let_def)
  from SetupFDLimits_never_lowers
         [of kernelGetrlimit "root 256 1024" kernelSetrlimit 2048 nofile]
       q made ok lawful_reference
  have "Cur \<lparr>Cur = 256, Max_lim = 1024\<rparr> < Cur \<lparr>Cur = 2048, Max_lim = 2048 :: uint64\<rparr>
     \<and> Max_lim \<lparr>Cur = 256, Max_lim = 1024\<rparr> \<le> Max_lim \<lparr>Cur = 2048, Max_lim = 2048 :: uint64\<rparr>
     \<and> Cur (nofile (root 256 1024))
       \<le> Cur (nofile (kern (snd (SetupFDLimits kernelGetrlimit kernelSetrlimit 2048
                                   (start (root 256 1024))))))
     \<and> Max_lim (nofile (root 256 1024))
       \<le> Max_lim (nofile (kern (snd (SetupFDLimits kernelGetrlimit kernelSetrlimit 2048
                                       (start (root 256 1024))))))"
    by blast
  with made ok show ?thesis
    by (metis fst_conv)
qed

text \<open>
  Claim C7. On a lawful kernel, after a run that returned \<^verbatim>\<open>nil\<close> the soft limit is at
  least \<open>wantFDs\<close>; a second run with the same \<open>wantFDs\<close> on the kernel the first one
  left, its query answering, returns \<^verbatim>\<open>nil\<close> with the query as its only call, and leaves
  the limits as they were.
\<close>

theorem SetupFDLimits_idempotent:
  assumes law: "lawful_kernel syscallGetrlimit syscallSetrlimit lim"
    and first: "SetupFDLimits syscallGetrlimit syscallSetrlimit wantFDs (start k) = (None, w1)"
    and again: "syscallGetrlimit (kern w1) = (Inr r, k2)"
  shows "wantFDs \<le> Cur (lim (kern w1))
         \<and> SetupFDLimits syscallGetrlimit syscallSetrlimit wantFDs (start (kern w1)) =
             (None, \<lparr>kern = k2, calls = [(Query, Getrlimit)],
                     infos = [NothingToDo (Cur r) wantFDs]\<rparr>)
         \<and> lim k2 = lim (kern w1)"
proof -
  from success_limits [OF law first] have reached: "wantFDs \<le> Cur (lim (kern w1))"
    by auto
  from lawful_getD [OF law again] have r: "r = lim (kern w1)" and same: "lim k2 = lim (kern w1)"
    by simp_all
  from reached r have "wantFDs \<le> Cur r" by simp
  with again have "SetupFDLimits syscallGetrlimit syscallSetrlimit wantFDs (start (kern w1)) =
             (None, \<lparr>kern = k2, calls = [(Query, Getrlimit)],
                     infos = [NothingToDo (Cur r) wantFDs]\<rparr>)"
    by (rule run_nothing_to_do)
  with reached same show ?thesis by simp
qed

theorem SetupFDLimits_idempotent_witness:
  "SetupFDLimits kernelGetrlimit kernelSetrlimit 500 (start (unprivileged 256 1024)) =
     (None,
      \<lparr>kern = unprivileged 500 1024,
       calls = [(Query, Getrlimit), (SoftRaise, Setrlimit \<lparr>Cur = 500, Max_lim = 1024\<rparr>)],
       infos = [RlimitsSet \<lparr>Cur = 500, Max_lim = 1024\<rparr>]\<rparr>)
   \<and> SetupFDLimits kernelGetrlimit kernelSetrlimit 500 (start (unprivileged 500 1024)) =
     (None, \<lparr>kern = unprivileged 500 1024, calls = [(Query, Getrlimit)],
             infos = [NothingToDo 500 500]\<rparr>)
   \<and> nofile (unprivileged 500 1024) = \<lparr>Cur = 500, Max_lim = 1024\<rparr>"
proof -
  let ?w1 = "\<lparr>kern = unprivileged 500 1024,
       calls = [(Query, Getrlimit), (SoftRaise, Setrlimit \<lparr>Cur = 500, Max_lim = 1024\<rparr>)],
       infos = [RlimitsSet \<lparr>Cur = 500, Max_lim = 1024\<rparr>]\<rparr>"
  have first: "SetupFDLimits kernelGetrlimit kernelSetrlimit 500 (start (unprivileged 256 1024)) =
                 (None, ?w1)"
    by (simp add: run_defs ref_defs Let_def)
  have again: "kernelGetrlimit (kern ?w1) =
                 (Inr \<lparr>Cur = 500, Max_lim = 1024\<rparr>, unprivileged 500 1024)"
    by (simp add: ref_defs)
  from SetupFDLimits_idempotent [OF lawful_reference first again] first
  show ?thesis
    by (simp add: unprivileged_def)
qed

end
